theory Spec2Isabelle
  imports Main "HOL-Library.Word"
begin

section \<open>Python values\<close>

text \<open>
  The helpers of \<^verbatim>\<open>utility.py\<close> are dynamically typed: the same parameter receives a
  \<^verbatim>\<open>str\<close>, a \<^verbatim>\<open>bytes\<close>, \<^verbatim>\<open>None\<close> or a byte array of the crypto module. The values the
  helpers handle are therefore one datatype. A \<^verbatim>\<open>str\<close> is a list of Unicode code points,
  a \<^verbatim>\<open>bytes\<close> a list of 8-bit words.
\<close>

type_synonym byte = "8 word"
type_synonym bytes = "byte list"
type_synonym str = "nat list"

datatype pyval =
    PyNone
  | PyInt int
  | PyStr str
  | PyBytes bytes
  | PyTuple "pyval list"

datatype error =
    AttributeError
  | UnicodeEncodeError
  | UnicodeDecodeError
  | binascii_Error
  | ValueError
  | TypeError
  | UnboundLocalError
  | CryptoError

text \<open>ASCII literals of the source, as a \<^verbatim>\<open>str\<close> and as a \<^verbatim>\<open>bytes\<close>.\<close>

definition lit :: "string \<Rightarrow> str" where
  "lit s = map of_char s"

definition blit :: "string \<Rightarrow> bytes" where
  "blit s = map of_char s"

text \<open>Truth value of an object, as \<^verbatim>\<open>not x\<close> and \<^verbatim>\<open>if x\<close> test it.\<close>

fun truthy :: "pyval \<Rightarrow> bool" where
  "truthy PyNone = False"
| "truthy (PyInt n) = (n \<noteq> 0)"
| "truthy (PyStr s) = (s \<noteq> [])"
| "truthy (PyBytes b) = (b \<noteq> [])"
| "truthy (PyTuple xs) = (xs \<noteq> [])"

subsection \<open>\<^verbatim>\<open>str.encode('UTF-8')\<close>\<close>

text \<open>
  One code point gives one to four bytes. A surrogate (U+D800 to U+DFFF) has no UTF-8
  encoding: Python raises \<^verbatim>\<open>UnicodeEncodeError\<close>. A \<^verbatim>\<open>str\<close> holds no code point above
  U+10FFFF; the model gives the same error there.
\<close>

definition utf8_char :: "nat \<Rightarrow> bytes option" where
  "utf8_char c =
     (if c < 0x80 then Some [of_nat c]
      else if c < 0x800 then Some [of_nat (0xC0 + c div 0x40), of_nat (0x80 + c mod 0x40)]
      else if 0xD800 \<le> c \<and> c < 0xE000 then None
      else if c < 0x10000 then
        Some [of_nat (0xE0 + c div 0x1000), of_nat (0x80 + c div 0x40 mod 0x40),
              of_nat (0x80 + c mod 0x40)]
      else if c < 0x110000 then
        Some [of_nat (0xF0 + c div 0x40000), of_nat (0x80 + c div 0x1000 mod 0x40),
              of_nat (0x80 + c div 0x40 mod 0x40), of_nat (0x80 + c mod 0x40)]
      else None)"

fun utf8_encode :: "str \<Rightarrow> error + bytes" where
  "utf8_encode [] = Inr []"
| "utf8_encode (c # cs) =
     (case utf8_char c of
        None \<Rightarrow> Inl UnicodeEncodeError
      | Some bs \<Rightarrow> (case utf8_encode cs of Inl e \<Rightarrow> Inl e | Inr r \<Rightarrow> Inr (bs @ r)))"

text \<open>
  The method call \<^verbatim>\<open>x.encode('UTF-8')\<close>: only a \<^verbatim>\<open>str\<close> has the method
  (\<^verbatim>\<open>bytes\<close>, \<^verbatim>\<open>None\<close>, \<^verbatim>\<open>int\<close> and \<^verbatim>\<open>tuple\<close> raise \<^verbatim>\<open>AttributeError\<close>).
\<close>

fun py_encode :: "pyval \<Rightarrow> error + bytes" where
  "py_encode (PyStr s) = utf8_encode s"
| "py_encode _ = Inl AttributeError"

section \<open>The external modules\<close>

text \<open>
  \<^verbatim>\<open>crypto.crypto\<close> and \<^verbatim>\<open>utility.hex_utils\<close> are imported, not defined, by
  \<^verbatim>\<open>utility.py\<close>. They are a parameter of the model: a function from the name of the
  external function and its positional arguments to an error or a value. The two
  call forms of \<^verbatim>\<open>SKENC_EncryptMessage\<close> and \<^verbatim>\<open>SKENC_DecryptMessage\<close> (with and without
  an IV) differ in the argument list.
\<close>

datatype func =
    base64_to_byte_array
  | SKENC_DecryptMessage
  | SKENC_EncryptMessage
  | byte_array_to_string
  | compute_message_hash
  | byte_array_to_hex_str

type_synonym crypto = "func \<Rightarrow> pyval list \<Rightarrow> error + pyval"

text \<open>
  The functions of the Python library that the helpers use and that are not written
  out here: \<^verbatim>\<open>str.split()\<close>, \<^verbatim>\<open>str.upper()\<close>, \<^verbatim>\<open>int(str)\<close> (\<open>None\<close>: \<^verbatim>\<open>ValueError\<close>),
  \<^verbatim>\<open>base64.b64decode(bytes)\<close> (\<open>None\<close>: \<^verbatim>\<open>binascii.Error\<close>) and
  \<^verbatim>\<open>bytes.decode('UTF-8')\<close> (\<open>None\<close>: \<^verbatim>\<open>UnicodeDecodeError\<close>).
\<close>

record python =
  str_split :: "str \<Rightarrow> str list"
  str_upper :: "str \<Rightarrow> str"
  int_of_str :: "str \<Rightarrow> int option"
  b64decode :: "bytes \<Rightarrow> bytes option"
  utf8_decode :: "bytes \<Rightarrow> str option"

subsection \<open>Runs: the calls made, then an error or a value\<close>

text \<open>
  A run of a helper is the list of the external calls it made, in order, and its
  outcome: \<open>Inl\<close> the exception that left it, \<open>Inr\<close> the value it returned. An entry of
  \<^verbatim>\<open>decrypt_data\<close> is an event of its own, so that a run tells whether the function was
  invoked.
\<close>

datatype event =
    Call func "pyval list"
  | Invoke_decrypt_data pyval pyval pyval

type_synonym 'a run = "event list \<times> (error + 'a)"

definition ret :: "'a \<Rightarrow> 'a run" where
  "ret x = ([], Inr x)"

definition emit :: "event \<Rightarrow> unit run" where
  "emit ev = ([ev], Inr ())"

definition call :: "crypto \<Rightarrow> func \<Rightarrow> pyval list \<Rightarrow> pyval run" where
  "call c f args = ([Call f args], c f args)"

definition lift :: "error + 'a \<Rightarrow> 'a run" where
  "lift r = ([], r)"

definition and_then :: "'a run \<Rightarrow> ('a \<Rightarrow> 'b run) \<Rightarrow> 'b run" where
  "and_then m f =
     (case m of
        (t, Inl e) \<Rightarrow> (t, Inl e)
      | (t, Inr x) \<Rightarrow> (case f x of (t', r) \<Rightarrow> (t @ t', r)))"

section \<open>\<^verbatim>\<open>encrypt_data\<close> and \<^verbatim>\<open>decrypt_data\<close>\<close>

definition encrypt_data :: "crypto \<Rightarrow> pyval \<Rightarrow> pyval \<Rightarrow> pyval \<Rightarrow> pyval run" where
  "encrypt_data c data encryption_key iv =
     (if iv \<noteq> PyNone then call c SKENC_EncryptMessage [encryption_key, iv, data]
      else call c SKENC_EncryptMessage [encryption_key, data])"

definition decrypt_data :: "crypto \<Rightarrow> pyval \<Rightarrow> pyval \<Rightarrow> pyval \<Rightarrow> pyval run" where
  "decrypt_data c encryption_key data iv =
     and_then (emit (Invoke_decrypt_data encryption_key data iv)) (\<lambda>_.
       if \<not> truthy data then ret data
       else
         and_then (call c base64_to_byte_array [data]) (\<lambda>data_byte.
         and_then (if iv \<noteq> PyNone
                   then call c SKENC_DecryptMessage [encryption_key, iv, data_byte]
                   else call c SKENC_DecryptMessage [encryption_key, data_byte]) (\<lambda>decrypt_result.
         and_then (call c byte_array_to_string [decrypt_result]) (\<lambda>result.
         ret result))))"

text \<open>
  The assumption under which encrypting and then decrypting is stated: the symmetric
  primitives are mutually inverse. \<open>key_iv\<close> is the key alone or the key and the IV, as the
  two call forms have it: what \<^verbatim>\<open>SKENC_EncryptMessage\<close> returns for the plaintext,
  \<^verbatim>\<open>SKENC_DecryptMessage\<close> turns back into the plaintext.
\<close>

definition skenc_inverse :: "crypto \<Rightarrow> pyval list \<Rightarrow> pyval \<Rightarrow> bool" where
  "skenc_inverse c key_iv plaintext =
     (case c SKENC_EncryptMessage (key_iv @ [plaintext]) of
        Inl e \<Rightarrow> True
      | Inr ciphertext \<Rightarrow> c SKENC_DecryptMessage (key_iv @ [ciphertext]) = Inr plaintext)"

section \<open>\<^verbatim>\<open>decrypted_response\<close>\<close>

text \<open>
  An item of \<^verbatim>\<open>outData\<close> is a dict with the keys \<^verbatim>\<open>data\<close>, \<^verbatim>\<open>iv\<close> and
  \<^verbatim>\<open>encryptedDataEncryptionKey\<close>. On the wire the three are strings; the loop stores a
  \<^verbatim>\<open>bytes\<close> or whatever \<^verbatim>\<open>decrypt_data\<close> returned back into \<^verbatim>\<open>data\<close>, so a field holds
  any value. The response and its items are records: a response that lacks \<^verbatim>\<open>result\<close> or
  \<^verbatim>\<open>outData\<close>, or an item that lacks one of its three keys (a \<^verbatim>\<open>KeyError\<close> in the
  source), is not a value of these types.
\<close>

record item =
  item_data :: pyval
  item_iv :: pyval
  item_encryptedDataEncryptionKey :: pyval

record result_params =
  outData :: "item list"

record response =
  resp_jsonrpc :: pyval
  resp_id :: pyval
  resp_result :: result_params

text \<open>
  The variables of \<^verbatim>\<open>decrypted_response\<close> that live across iterations of its loop.
  \<^verbatim>\<open>do_decrypt\<close> is set to \<^verbatim>\<open>True\<close> once, before the loop;
  \<^verbatim>\<open>data_encryption_key_byte\<close> is unbound (\<open>None\<close>) until a branch assigns it.
\<close>

record locals =
  do_decrypt :: bool
  data_encryption_key_byte :: "pyval option"

text \<open>
  The argument of the \<^verbatim>\<open>logger.info\<close> call of the plain branch,
  \<^verbatim>\<open>base64.b64decode(data).decode('UTF-8')\<close>. It is evaluated before the logger is
  called, so its exceptions leave \<^verbatim>\<open>decrypted_response\<close>.
\<close>

definition plain_for_log :: "python \<Rightarrow> bytes \<Rightarrow> error + str" where
  "plain_for_log py data =
     (case b64decode py data of
        None \<Rightarrow> Inl binascii_Error
      | Some d \<Rightarrow> (case utf8_decode py d of None \<Rightarrow> Inl UnicodeDecodeError | Some s \<Rightarrow> Inr s))"

text \<open>
  One iteration of the loop (lines 189 to 209). \<^verbatim>\<open>item\<close> and
  \<^verbatim>\<open>input_json_params['outData'][i]\<close> are the same dict, since \<^verbatim>\<open>i\<close> counts the
  iterations over that list: the body takes the item and the loop variables and gives
  the calls made, the loop variables and the item afterwards, and the exception that
  left the body, if any. In the plain branch the item is stored before the logged
  expression is evaluated. The constants \<^verbatim>\<open>"null".encode('UTF-8')\<close> and
  \<^verbatim>\<open>"-".encode('UTF-8')\<close> are written as the bytes they are, \<open>blit ''null''\<close> and
  \<open>blit ''-''\<close>.
\<close>

definition loop_body ::
  "crypto \<Rightarrow> python \<Rightarrow> pyval \<Rightarrow> pyval \<Rightarrow> pyval \<Rightarrow> pyval \<Rightarrow> locals \<Rightarrow> item
     \<Rightarrow> event list \<times> locals \<times> item \<times> error option" where
  "loop_body c py session_key session_iv data_key data_iv l item =
     (case py_encode (item_data item) of
        Inl e \<Rightarrow> ([], l, item, Some e)
      | Inr data \<Rightarrow>
     (case py_encode (item_iv item) of
        Inl e \<Rightarrow> ([], l, item, Some e)
      | Inr iv0 \<Rightarrow>
     (case py_encode (item_encryptedDataEncryptionKey item) of
        Inl e \<Rightarrow> ([], l, item, Some e)
      | Inr e_key \<Rightarrow>
     (let (l1, iv) =
            (if e_key = [] \<or> e_key = blit ''null''
             then (l\<lparr>data_encryption_key_byte := Some session_key\<rparr>, session_iv)
             else if e_key = blit ''-''
             then (l\<lparr>do_decrypt := False\<rparr>, PyBytes iv0)
             else (l\<lparr>data_encryption_key_byte := Some data_key\<rparr>, data_iv))
      in if \<not> do_decrypt l1 then
           (case plain_for_log py data of
              Inl e \<Rightarrow> ([], l1, item\<lparr>item_data := PyBytes data\<rparr>, Some e)
            | Inr _ \<Rightarrow> ([], l1, item\<lparr>item_data := PyBytes data\<rparr>, None))
         else
           (case data_encryption_key_byte l1 of
              None \<Rightarrow> ([], l1, item, Some UnboundLocalError)
            | Some k \<Rightarrow>
                (case decrypt_data c k (item_data item) iv of
                   (t, Inl e) \<Rightarrow> (t, l1, item, Some e)
                 | (t, Inr data_in_plain) \<Rightarrow>
                     (t, l1, item\<lparr>item_data := data_in_plain\<rparr>, None)))))))"

text \<open>
  The loop over \<^verbatim>\<open>data_objects\<close>, which is the list \<^verbatim>\<open>input_json_params['outData']\<close>
  itself: the result is the calls made, the list as the loop left it, and the exception
  that ended the loop, if any. An exception leaves the items not yet reached as they
  were.
\<close>

fun decrypt_items ::
  "crypto \<Rightarrow> python \<Rightarrow> pyval \<Rightarrow> pyval \<Rightarrow> pyval \<Rightarrow> pyval \<Rightarrow> locals \<Rightarrow> item list
     \<Rightarrow> event list \<times> item list \<times> error option" where
  "decrypt_items c py session_key session_iv data_key data_iv l [] = ([], [], None)"
| "decrypt_items c py session_key session_iv data_key data_iv l (item # rest) =
     (case loop_body c py session_key session_iv data_key data_iv l item of
        (t, l', item', Some e) \<Rightarrow> (t, item' # rest, Some e)
      | (t, l', item', None) \<Rightarrow>
          (case decrypt_items c py session_key session_iv data_key data_iv l' rest of
             (t', rest', r) \<Rightarrow> (t @ t', item' # rest', r)))"

text \<open>
  \<^verbatim>\<open>decrypted_response(input_json, session_key, session_iv, data_key=None, data_iv=None)\<close>:
  the calls made, the response object of the caller after the call, and the exception
  raised or the list returned. The list returned is the \<^verbatim>\<open>outData\<close> list of the response
  object. An omitted \<^verbatim>\<open>data_key\<close> or \<^verbatim>\<open>data_iv\<close> is \<open>PyNone\<close>.
\<close>

definition decrypted_response ::
  "crypto \<Rightarrow> python \<Rightarrow> response \<Rightarrow> pyval \<Rightarrow> pyval \<Rightarrow> pyval \<Rightarrow> pyval
     \<Rightarrow> event list \<times> response \<times> (error + item list)" where
  "decrypted_response c py input_json session_key session_iv data_key data_iv =
     (let input_json_params = resp_result input_json;
          data_objects = outData input_json_params
      in case decrypt_items c py session_key session_iv data_key data_iv
                \<lparr>do_decrypt = True, data_encryption_key_byte = None\<rparr> data_objects of
           (t, outData', r) \<Rightarrow>
             (let input_json' = input_json\<lparr>resp_result := input_json_params\<lparr>outData := outData'\<rparr>\<rparr>
              in (t, input_json',
                  (case r of Some e \<Rightarrow> Inl e | None \<Rightarrow> Inr (outData (resp_result input_json'))))))"

section \<open>\<^verbatim>\<open>compute_data_hash\<close> and \<^verbatim>\<open>verify_data_hash\<close>\<close>

definition compute_data_hash :: "crypto \<Rightarrow> pyval \<Rightarrow> pyval run" where
  "compute_data_hash c data =
     and_then (lift (py_encode data)) (\<lambda>encoded.
     and_then (call c compute_message_hash [PyBytes encoded]) (\<lambda>data_hash.
     ret data_hash))"

text \<open>
  The method call \<^verbatim>\<open>x.upper()\<close>: a \<^verbatim>\<open>str\<close> and a \<^verbatim>\<open>bytes\<close> have the method, the latter
  mapping the ASCII letters only.
\<close>

definition ascii_upper :: "byte \<Rightarrow> byte" where
  "ascii_upper b = (if 0x61 \<le> b \<and> b \<le> 0x7A then b - 0x20 else b)"

fun py_upper :: "python \<Rightarrow> pyval \<Rightarrow> error + pyval" where
  "py_upper py (PyStr s) = Inr (PyStr (str_upper py s))"
| "py_upper py (PyBytes b) = Inr (PyBytes (map ascii_upper b))"
| "py_upper py _ = Inl AttributeError"

definition verify_data_hash :: "crypto \<Rightarrow> python \<Rightarrow> pyval \<Rightarrow> pyval \<Rightarrow> bool run" where
  "verify_data_hash c py msg data_hash =
     and_then (compute_data_hash c msg) (\<lambda>msg_hash.
     and_then (call c byte_array_to_hex_str [msg_hash]) (\<lambda>hex_str.
     and_then (lift (py_upper py hex_str)) (\<lambda>msg_hash_hex.
     and_then (lift (py_upper py data_hash)) (\<lambda>data_hash_upper.
       if msg_hash_hex = data_hash_upper then ret True else ret False))))"

section \<open>\<^verbatim>\<open>human_read_to_byte\<close>\<close>

definition size_name :: "str list" where
  "size_name = map lit [''B'', ''KB'', ''MB'', ''GB'', ''TB'', ''PB'', ''EB'', ''ZB'', ''YB'']"

text \<open>\<^verbatim>\<open>tuple.index(x)\<close>: the first position of \<open>x\<close>; \<open>None\<close> is its \<^verbatim>\<open>ValueError\<close>.\<close>

fun index_of :: "'a list \<Rightarrow> 'a \<Rightarrow> nat option" where
  "index_of [] x = None"
| "index_of (y # ys) x = (if y = x then Some 0 else map_option Suc (index_of ys x))"

text \<open>\<^verbatim>\<open>int(s)\<close> on a \<^verbatim>\<open>str\<close>.\<close>

definition py_int :: "python \<Rightarrow> str \<Rightarrow> error + int" where
  "py_int py s = (case int_of_str py s of None \<Rightarrow> Inl ValueError | Some n \<Rightarrow> Inr n)"

text \<open>
  The parameter \<^verbatim>\<open>size\<close> is a \<^verbatim>\<open>str\<close>; the variable is then bound to the list of its
  tokens. \<^verbatim>\<open>or\<close> evaluates \<^verbatim>\<open>int(size[0])\<close> only when the list has two tokens.
\<close>

definition human_read_to_byte :: "python \<Rightarrow> str \<Rightarrow> error + int" where
  "human_read_to_byte py size_str =
     (let tokens = str_split py size_str in
      if length tokens \<noteq> 2 then Inl ValueError
      else
        (case py_int py (tokens ! 0) of
           Inl e \<Rightarrow> Inl e
         | Inr n \<Rightarrow>
             if n \<le> 0 then Inl ValueError
             else
               (let num = n; unit = str_upper py (tokens ! 1) in
                case index_of size_name unit of
                  None \<Rightarrow> Inl ValueError
                | Some idx \<Rightarrow> (let factor = 1024 ^ idx in Inr (num * factor)))))"

section \<open>A deterministic stand-in for the external modules\<close>

text \<open>
  To run the helpers on concrete inputs, the examples below use a crypto module whose
  symmetric cipher is the identity (so that encryption and decryption are mutually
  inverse), whose base64 decoding is the strict decoding of the standard alphabet with
  padding, and whose hash is the sum of the bytes; and a Python library restricted to
  ASCII text. They stand for the external modules in examples only: every general
  theorem below is about an arbitrary \<open>crypto\<close> and an arbitrary \<open>python\<close>.
\<close>

definition b64_index :: "byte \<Rightarrow> nat option" where
  "b64_index b =
     (let n = unat b in
      if 65 \<le> n \<and> n \<le> 90 then Some (n - 65)
      else if 97 \<le> n \<and> n \<le> 122 then Some (n - 71)
      else if 48 \<le> n \<and> n \<le> 57 then Some (n + 4)
      else if n = 43 then Some 62
      else if n = 47 then Some 63
      else None)"

fun b64_strict :: "bytes \<Rightarrow> bytes option" where
  "b64_strict [] = Some []"
| "b64_strict (a # b # c # d # rest) =
     (case (b64_index a, b64_index b) of
        (Some x, Some y) \<Rightarrow>
          if c = 61 \<and> d = 61 \<and> rest = [] then Some [of_nat (x * 4 + y div 16)]
          else
            (case b64_index c of
               None \<Rightarrow> None
             | Some z \<Rightarrow>
                 if d = 61 \<and> rest = []
                 then Some [of_nat (x * 4 + y div 16), of_nat (y mod 16 * 16 + z div 4)]
                 else
                   (case b64_index d of
                      None \<Rightarrow> None
                    | Some w \<Rightarrow>
                        (case b64_strict rest of
                           None \<Rightarrow> None
                         | Some r \<Rightarrow>
                             Some (of_nat (x * 4 + y div 16) # of_nat (y mod 16 * 16 + z div 4)
                                   # of_nat (z mod 4 * 64 + w) # r))))
      | _ \<Rightarrow> None)"
| "b64_strict _ = None"

definition ascii_decode :: "bytes \<Rightarrow> str option" where
  "ascii_decode b = (if \<forall>x \<in> set b. x < 0x80 then Some (map unat b) else None)"

definition hex_digit :: "nat \<Rightarrow> nat" where
  "hex_digit n = (if n < 10 then 48 + n else 87 + n)"

definition hex_of_bytes :: "bytes \<Rightarrow> str" where
  "hex_of_bytes b = concat (map (\<lambda>x. [hex_digit (unat x div 16), hex_digit (unat x mod 16)]) b)"

definition noop_crypto :: crypto where
  "noop_crypto f args =
     (case (f, args) of
        (base64_to_byte_array, [PyStr s]) \<Rightarrow>
          (case utf8_encode s of
             Inl e \<Rightarrow> Inl e
           | Inr b \<Rightarrow> (case b64_strict b of None \<Rightarrow> Inl ValueError | Some d \<Rightarrow> Inr (PyBytes d)))
      | (SKENC_DecryptMessage, [k, iv, d]) \<Rightarrow> Inr d
      | (SKENC_DecryptMessage, [k, d]) \<Rightarrow> Inr d
      | (SKENC_EncryptMessage, [k, iv, d]) \<Rightarrow> Inr d
      | (SKENC_EncryptMessage, [k, d]) \<Rightarrow> Inr d
      | (byte_array_to_string, [PyBytes b]) \<Rightarrow>
          (case ascii_decode b of None \<Rightarrow> Inl ValueError | Some s \<Rightarrow> Inr (PyStr s))
      | (compute_message_hash, [PyBytes b]) \<Rightarrow> Inr (PyBytes [foldr (+) b 0])
      | (byte_array_to_hex_str, [PyBytes b]) \<Rightarrow> Inr (PyStr (hex_of_bytes b))
      | _ \<Rightarrow> Inl TypeError)"

definition is_space :: "nat \<Rightarrow> bool" where
  "is_space c \<longleftrightarrow> c = 32 \<or> (9 \<le> c \<and> c \<le> 13)"

fun split_ws :: "str \<Rightarrow> str \<Rightarrow> str list" where
  "split_ws tok [] = (if tok = [] then [] else [tok])"
| "split_ws tok (c # cs) =
     (if is_space c then (if tok = [] then split_ws [] cs else tok # split_ws [] cs)
      else split_ws (tok @ [c]) cs)"

definition digits_int :: "str \<Rightarrow> int option" where
  "digits_int s =
     (if s \<noteq> [] \<and> (\<forall>c \<in> set s. 48 \<le> c \<and> c \<le> 57)
      then Some (foldl (\<lambda>a c. 10 * a + int (c - 48)) 0 s) else None)"

definition ascii_python :: python where
  "ascii_python =
     \<lparr>str_split = split_ws [],
      str_upper = map (\<lambda>c. if 97 \<le> c \<and> c \<le> 122 then c - 32 else c),
      int_of_str = digits_int,
      b64decode = b64_strict,
      utf8_decode = ascii_decode\<rparr>"

subsection \<open>Example responses\<close>

definition dash_item :: item where
  "dash_item = \<lparr>item_data = PyStr (lit ''aGk=''), item_iv = PyStr [],
      item_encryptedDataEncryptionKey = PyStr (lit ''-'')\<rparr>"
definition null_item :: item where
  "null_item = \<lparr>item_data = PyStr (lit ''aGVsbG8=''), item_iv = PyStr [],
      item_encryptedDataEncryptionKey = PyStr (lit ''null'')\<rparr>"
definition plaintext_item :: item where
  "plaintext_item = \<lparr>item_data = PyStr (lit ''plaintext-bytes''), item_iv = PyStr [],
      item_encryptedDataEncryptionKey = PyStr (lit ''-'')\<rparr>"

definition one_time_item :: item where
  "one_time_item = \<lparr>item_data = PyStr [], item_iv = PyStr [],
      item_encryptedDataEncryptionKey = PyStr (lit ''abc'')\<rparr>"

definition resp_of :: "item list \<Rightarrow> response" where
  "resp_of xs = \<lparr>resp_jsonrpc = PyStr (lit ''2.0''), resp_id = PyInt 1,
      resp_result = \<lparr>outData = xs\<rparr>\<rparr>"

section \<open>Properties\<close>

lemmas run_simps = ret_def emit_def call_def lift_def and_then_def

subsection \<open>UTF-8 encoding and the sentinels\<close>

text \<open>
  The loop compares the encoded key with \<^verbatim>\<open>b""\<close>, \<^verbatim>\<open>b"null"\<close> and \<^verbatim>\<open>b"-"\<close>. A byte below
  \<open>0x80\<close> at the head of an encoding comes from an ASCII code point only, so the
  comparisons of the encoded keys are comparisons of the strings.
\<close>

lemma byte_of_nat_less: "n < 256 \<Longrightarrow> ((of_nat n :: byte) < 0x80) = (n < 128)"
  by (simp add: word_less_nat_alt unat_of_nat)

lemma utf8_char_cases:
  assumes "utf8_char c = Some bs"
  obtains (ascii) "c < 0x80" "bs = [of_nat c]"
  | (multi) n rest where "128 \<le> n" "n < 256" "bs = of_nat n # rest"
proof (cases "c < 0x80")
  case True
  with assms have "bs = [of_nat c]" by (simp add: utf8_char_def)
  with True show ?thesis by (rule ascii)
next
  case False
  note hi = False
  show ?thesis
  proof (cases "c < 0x800")
    case True
    with hi assms have "bs = of_nat (0xC0 + c div 0x40) # [of_nat (0x80 + c mod 0x40)]"
      unfolding utf8_char_def by (simp del: of_nat_add of_nat_numeral)
    moreover from True have "128 \<le> 0xC0 + c div 0x40" "0xC0 + c div 0x40 < 256" by simp_all
    ultimately show ?thesis using multi by blast
  next
    case False
    note hi2 = False
    show ?thesis
    proof (cases "c < 0x10000")
      case True
      with hi hi2 assms have "bs = of_nat (0xE0 + c div 0x1000)
          # [of_nat (0x80 + c div 0x40 mod 0x40), of_nat (0x80 + c mod 0x40)]"
        unfolding utf8_char_def by (simp del: of_nat_add of_nat_numeral split: if_splits)
      moreover from True have "128 \<le> 0xE0 + c div 0x1000" "0xE0 + c div 0x1000 < 256" by simp_all
      ultimately show ?thesis using multi by blast
    next
      case False
      with hi hi2 assms have lt: "c < 0x110000"
        unfolding utf8_char_def by (simp split: if_splits)
      with False hi hi2 assms have "bs = of_nat (0xF0 + c div 0x40000)
          # [of_nat (0x80 + c div 0x1000 mod 0x40), of_nat (0x80 + c div 0x40 mod 0x40),
             of_nat (0x80 + c mod 0x40)]"
        unfolding utf8_char_def by (simp del: of_nat_add of_nat_numeral split: if_splits)
      moreover from lt have "128 \<le> 0xF0 + c div 0x40000" "0xF0 + c div 0x40000 < 256" by simp_all
      ultimately show ?thesis using multi by blast
    qed
  qed
qed

lemma utf8_char_ascii_head:
  assumes "utf8_char c = Some (b # bs)" and "b < 0x80"
  shows "c = unat b \<and> bs = []"
  using assms(1)
proof (cases rule: utf8_char_cases)
  case ascii
  then show ?thesis by (simp add: unat_of_nat)
next
  case (multi n rest)
  with assms(2) show ?thesis by (simp add: byte_of_nat_less del: of_nat_add of_nat_numeral)
qed

lemma utf8_encode_ascii_head:
  assumes "utf8_encode s = Inr (b # bs)" and "b < 0x80"
  shows "\<exists>cs. s = unat b # cs \<and> utf8_encode cs = Inr bs"
proof (cases s)
  case Nil
  with assms show ?thesis by simp
next
  case (Cons c cs)
  with assms(1) obtain xs r where xs: "utf8_char c = Some xs" and r: "utf8_encode cs = Inr r"
    and eq: "xs @ r = b # bs"
    by (auto split: option.splits sum.splits)
  from xs have "xs \<noteq> []" by (cases rule: utf8_char_cases) auto
  with eq obtain xs' where xs': "xs = b # xs'" by (cases xs) auto
  with xs assms(2) have "c = unat b \<and> xs' = []" by (simp add: utf8_char_ascii_head)
  with xs' eq r Cons show ?thesis by simp
qed

lemma utf8_encode_empty: "utf8_encode s = Inr [] \<longleftrightarrow> s = []"
proof (cases s)
  case Nil
  then show ?thesis by simp
next
  case (Cons c cs)
  have "utf8_encode (c # cs) \<noteq> Inr []"
  proof
    assume "utf8_encode (c # cs) = Inr []"
    then obtain xs r where xs: "utf8_char c = Some xs" and "xs @ r = []"
      by (auto split: option.splits sum.splits)
    then have "xs = []" by simp
    with xs show False by (cases rule: utf8_char_cases) auto
  qed
  with Cons show ?thesis by simp
qed

lemma utf8_encode_null: "utf8_encode s = Inr (blit ''null'') \<longleftrightarrow> s = lit ''null''"
proof
  assume "utf8_encode s = Inr (blit ''null'')"
  then have "utf8_encode s = Inr [110, 117, 108, 108]" by (simp add: blit_def)
  then obtain s1 where 1: "s = unat (110 :: byte) # s1" "utf8_encode s1 = Inr [117, 108, 108]"
    using utf8_encode_ascii_head [of s 110 "[117, 108, 108]"] by auto
  then obtain s2 where 2: "s1 = unat (117 :: byte) # s2" "utf8_encode s2 = Inr [108, 108]"
    using utf8_encode_ascii_head [of s1 117 "[108, 108]"] by auto
  then obtain s3 where 3: "s2 = unat (108 :: byte) # s3" "utf8_encode s3 = Inr [108]"
    using utf8_encode_ascii_head [of s2 108 "[108]"] by auto
  then obtain s4 where 4: "s3 = unat (108 :: byte) # s4" "utf8_encode s4 = Inr []"
    using utf8_encode_ascii_head [of s3 108 "[]"] by auto
  then have "s4 = []" by (simp add: utf8_encode_empty)
  with 1 2 3 4 show "s = lit ''null''" by (simp add: lit_def)
next
  assume "s = lit ''null''"
  then show "utf8_encode s = Inr (blit ''null'')"
    by (simp add: blit_def lit_def utf8_char_def)
qed

lemma utf8_encode_dash: "utf8_encode s = Inr (blit ''-'') \<longleftrightarrow> s = lit ''-''"
proof
  assume "utf8_encode s = Inr (blit ''-'')"
  then have "utf8_encode s = Inr [45]" by (simp add: blit_def)
  then obtain s1 where 1: "s = unat (45 :: byte) # s1" "utf8_encode s1 = Inr []"
    using utf8_encode_ascii_head [of s 45 "[]"] by auto
  then have "s1 = []" by (simp add: utf8_encode_empty)
  with 1 show "s = lit ''-''" by (simp add: lit_def)
next
  assume "s = lit ''-''"
  then show "utf8_encode s = Inr (blit ''-'')"
    by (simp add: blit_def lit_def utf8_char_def)
qed

lemma blit_distinct: "blit ''-'' \<noteq> []" "blit ''-'' \<noteq> blit ''null''"
  by (simp_all add: blit_def)

subsection \<open>The loop body, branch by branch\<close>

lemma loop_body_dash:
  assumes "item_encryptedDataEncryptionKey item = PyStr (lit ''-'')"
    and "py_encode (item_data item) = Inr d"
    and "py_encode (item_iv item) = Inr v"
  shows "loop_body c py session_key session_iv data_key data_iv l item =
    ([], l\<lparr>do_decrypt := False\<rparr>, item\<lparr>item_data := PyBytes d\<rparr>,
     (case plain_for_log py d of Inl e \<Rightarrow> Some e | Inr _ \<Rightarrow> None))"
proof -
  have "utf8_encode (lit ''-'') = Inr (blit ''-'')" by (simp add: utf8_encode_dash)
  with assms show ?thesis
    by (simp add: loop_body_def blit_distinct split: sum.splits)
qed

lemma loop_body_plain:
  assumes "\<not> do_decrypt l"
  shows "fst (loop_body c py session_key session_iv data_key data_iv l item) = []"
  using assms by (simp add: loop_body_def Let_def split: sum.splits prod.splits)

lemma loop_body_dash_trace:
  assumes "item_encryptedDataEncryptionKey item = PyStr (lit ''-'')"
  shows "fst (loop_body c py session_key session_iv data_key data_iv l item) = []"
proof -
  have "utf8_encode (lit ''-'') = Inr (blit ''-'')" by (simp add: utf8_encode_dash)
  with assms show ?thesis
    by (simp add: loop_body_def blit_distinct split: sum.splits)
qed

lemma loop_body_session:
  assumes "item_encryptedDataEncryptionKey item = PyStr k" and "k = [] \<or> k = lit ''null''"
    and "py_encode (item_data item) = Inr d"
    and "py_encode (item_iv item) = Inr v"
    and "do_decrypt l"
  shows "loop_body c py session_key session_iv data_key data_iv l item =
    (case decrypt_data c session_key (item_data item) session_iv of
       (t, Inl e) \<Rightarrow> (t, l\<lparr>data_encryption_key_byte := Some session_key\<rparr>, item, Some e)
     | (t, Inr data_in_plain) \<Rightarrow>
         (t, l\<lparr>data_encryption_key_byte := Some session_key\<rparr>,
          item\<lparr>item_data := data_in_plain\<rparr>, None))"
proof -
  from assms(2) have "utf8_encode k = Inr [] \<or> utf8_encode k = Inr (blit ''null'')"
    by (auto simp: utf8_encode_null)
  with assms show ?thesis
    by (auto simp: loop_body_def split: sum.splits)
qed

lemma loop_body_data_key:
  assumes "item_encryptedDataEncryptionKey item = PyStr k"
    and "k \<noteq> []" and "k \<noteq> lit ''null''" and "k \<noteq> lit ''-''"
    and "utf8_encode k = Inr kb"
    and "py_encode (item_data item) = Inr d"
    and "py_encode (item_iv item) = Inr v"
    and "do_decrypt l"
  shows "loop_body c py session_key session_iv data_key data_iv l item =
    (case decrypt_data c data_key (item_data item) data_iv of
       (t, Inl e) \<Rightarrow> (t, l\<lparr>data_encryption_key_byte := Some data_key\<rparr>, item, Some e)
     | (t, Inr data_in_plain) \<Rightarrow>
         (t, l\<lparr>data_encryption_key_byte := Some data_key\<rparr>,
          item\<lparr>item_data := data_in_plain\<rparr>, None))"
proof -
  from assms(2-5) have "kb \<noteq> []" "kb \<noteq> blit ''null''" "kb \<noteq> blit ''-''"
    using utf8_encode_empty utf8_encode_null utf8_encode_dash by auto
  with assms show ?thesis
    by (simp add: loop_body_def split: sum.splits)
qed

lemma loop_body_frame:
  assumes "loop_body c py session_key session_iv data_key data_iv l item = (t, l', item', r)"
  shows "item' = item\<lparr>item_data := item_data item'\<rparr>"
  using assms
  by (auto simp: loop_body_def Let_def split: sum.splits prod.splits if_splits option.splits)

lemma loop_body_fields:
  assumes "loop_body c py session_key session_iv data_key data_iv l item = (t, l', item', r)"
  shows "item_iv item' = item_iv item"
    and "item_encryptedDataEncryptionKey item' = item_encryptedDataEncryptionKey item"
  using assms
  by (auto simp: loop_body_def Let_def split: sum.splits prod.splits if_splits option.splits)

lemma loop_body_dash_raises:
  assumes "item_encryptedDataEncryptionKey item = PyStr (lit ''-'')"
    and "py_encode (item_data item) = Inr d"
    and "plain_for_log py d = Inl e"
  shows "snd (snd (snd (loop_body c py session_key session_iv data_key data_iv l item))) \<noteq> None"
proof (cases "py_encode (item_iv item)")
  case (Inl e')
  with assms show ?thesis by (simp add: loop_body_def)
next
  case (Inr v)
  with assms show ?thesis by (simp add: loop_body_dash)
qed

lemma loop_body_dash_returns:
  assumes "item_encryptedDataEncryptionKey item = PyStr (lit ''-'')"
    and "loop_body c py session_key session_iv data_key data_iv l item = (t, l', item', None)"
  shows "\<exists>d s. py_encode (item_data item) = Inr d \<and> plain_for_log py d = Inr s
           \<and> item' = item\<lparr>item_data := PyBytes d\<rparr>"
proof -
  from assms(2) obtain d v where d: "py_encode (item_data item) = Inr d"
    and v: "py_encode (item_iv item) = Inr v"
    by (auto simp: loop_body_def split: sum.splits)
  from loop_body_dash [OF assms(1) d v] assms(2) d show ?thesis
    by (auto split: sum.splits)
qed

text \<open>
  When the body returns, the \<^verbatim>\<open>data\<close> it stored is the encoded input data (plain branch) or
  what \<^verbatim>\<open>decrypt_data\<close> returned for the input data, under the session key and IV or under
  \<^verbatim>\<open>data_key\<close> and \<^verbatim>\<open>data_iv\<close>.
\<close>

lemma loop_body_returns_data:
  assumes "loop_body c py session_key session_iv data_key data_iv l item = (t, l', item', None)"
  shows "\<exists>d. py_encode (item_data item) = Inr d
    \<and> (item_data item' = PyBytes d
       \<or> snd (decrypt_data c session_key (item_data item) session_iv) = Inr (item_data item')
       \<or> snd (decrypt_data c data_key (item_data item) data_iv) = Inr (item_data item'))"
proof -
  from assms obtain d v e_key where enc: "py_encode (item_data item) = Inr d"
      "py_encode (item_iv item) = Inr v"
      "py_encode (item_encryptedDataEncryptionKey item) = Inr e_key"
    by (auto simp: loop_body_def split: sum.splits)
  with assms show ?thesis
    by (auto simp: loop_body_def Let_def
        split: sum.splits prod.splits if_splits option.splits)
qed

text \<open>
  Once \<^verbatim>\<open>do_decrypt\<close> is false it stays false, and the body calls nothing.
\<close>

lemma loop_body_keeps_plain:
  assumes "\<not> do_decrypt l"
    and "loop_body c py session_key session_iv data_key data_iv l item = (t, l', item', r)"
  shows "\<not> do_decrypt l'"
  using assms
  by (auto simp: loop_body_def Let_def split: sum.splits prod.splits if_splits option.splits)

text \<open>
  \<^verbatim>\<open>data_encryption_key_byte\<close> is never read unbound: an \<^verbatim>\<open>UnboundLocalError\<close> can leave
  the body only as an exception of \<^verbatim>\<open>decrypt_data\<close>, that is, of the crypto module.
\<close>

lemma utf8_encode_error: "utf8_encode s = Inl e \<Longrightarrow> e = UnicodeEncodeError"
  by (induction s) (auto split: option.splits sum.splits)

lemma py_encode_error: "py_encode v = Inl e \<Longrightarrow> e = AttributeError \<or> e = UnicodeEncodeError"
  by (cases v) (auto dest: utf8_encode_error)

lemma loop_body_key_bound:
  assumes "snd (snd (snd (loop_body c py session_key session_iv data_key data_iv l item)))
             = Some UnboundLocalError"
  shows "\<exists>k d v. snd (decrypt_data c k d v) = Inl UnboundLocalError"
proof -
  have ne: "py_encode v \<noteq> Inl UnboundLocalError" for v
    using py_encode_error [of v UnboundLocalError] by auto
  obtain data iv0 e_key where enc: "py_encode (item_data item) = Inr data"
      "py_encode (item_iv item) = Inr iv0"
      "py_encode (item_encryptedDataEncryptionKey item) = Inr e_key"
    using assms ne by (auto simp: loop_body_def split: sum.splits)
  show ?thesis
  proof (cases "e_key = blit ''-''")
    case True
    with enc assms show ?thesis
      by (simp add: loop_body_def blit_distinct plain_for_log_def
          split: sum.splits option.splits)
  next
    case False
    show ?thesis
    proof (cases "do_decrypt l")
      case plain: False
      with False enc assms show ?thesis
        by (simp add: loop_body_def Let_def plain_for_log_def
            split: sum.splits option.splits if_splits)
    next
      case True
      define k where "k = (if e_key = [] \<or> e_key = blit ''null'' then session_key else data_key)"
      define v where "v = (if e_key = [] \<or> e_key = blit ''null'' then session_iv else data_iv)"
      from False True enc assms
      have "snd (decrypt_data c k (item_data item) v) = Inl UnboundLocalError"
        by (auto simp: loop_body_def Let_def k_def v_def
            split: sum.splits prod.splits if_splits)
      then show ?thesis by blast
    qed
  qed
qed

subsection \<open>The loop\<close>

lemma decrypt_items_frame:
  assumes "decrypt_items c py session_key session_iv data_key data_iv l xs = (t, ys, r)"
  shows "length ys = length xs \<and> map item_iv ys = map item_iv xs
    \<and> map item_encryptedDataEncryptionKey ys = map item_encryptedDataEncryptionKey xs"
  using assms
proof (induction xs arbitrary: l t ys r)
  case Nil
  then show ?case by simp
next
  case (Cons x xs)
  obtain t1 l1 x1 r1 where b:
    "loop_body c py session_key session_iv data_key data_iv l x = (t1, l1, x1, r1)"
    by (metis prod_cases4)
  note f = loop_body_fields [OF b]
  show ?case
  proof (cases r1)
    case (Some e)
    with b Cons.prems f show ?thesis by auto
  next
    case None
    obtain t2 ys2 r2 where rec:
      "decrypt_items c py session_key session_iv data_key data_iv l1 xs = (t2, ys2, r2)"
      by (metis prod_cases3)
    from Cons.IH [OF rec] b None rec Cons.prems f show ?thesis by auto
  qed
qed

text \<open>
  When the loop ends without an exception, the item at each position is what the body
  made of the input item at that position.
\<close>

lemma decrypt_items_derived:
  assumes "decrypt_items c py session_key session_iv data_key data_iv l xs = (t, ys, None)"
    and "i < length xs"
  shows "\<exists>l0 t0 l1. loop_body c py session_key session_iv data_key data_iv l0 (xs ! i)
            = (t0, l1, ys ! i, None)"
  using assms
proof (induction xs arbitrary: l t ys i)
  case Nil
  then show ?case by simp
next
  case (Cons x xs)
  obtain t1 l1 x1 r1 where b:
    "loop_body c py session_key session_iv data_key data_iv l x = (t1, l1, x1, r1)"
    by (metis prod_cases4)
  obtain t2 ys2 r2 where rec:
    "decrypt_items c py session_key session_iv data_key data_iv l1 xs = (t2, ys2, r2)"
    by (metis prod_cases3)
  from b rec Cons.prems(1) have r1: "r1 = None" and r2: "r2 = None" and ys: "ys = x1 # ys2"
    by (auto split: option.splits)
  show ?case
  proof (cases i)
    case 0
    with b r1 ys show ?thesis by auto
  next
    case (Suc j)
    with Cons.prems(2) have "j < length xs" by simp
    from Cons.IH [OF rec [unfolded r2] this] Suc ys show ?thesis by simp
  qed
qed

lemma decrypt_items_plain:
  assumes "\<not> do_decrypt l"
  shows "fst (decrypt_items c py session_key session_iv data_key data_iv l xs) = []"
  using assms
proof (induction xs arbitrary: l)
  case Nil
  then show ?case by simp
next
  case (Cons x xs)
  obtain t1 l1 x1 r1 where b:
    "loop_body c py session_key session_iv data_key data_iv l x = (t1, l1, x1, r1)"
    by (metis prod_cases4)
  from loop_body_plain [OF Cons.prems, of c py session_key session_iv data_key data_iv x] b
  have t1: "t1 = []" by simp
  from loop_body_keeps_plain [OF Cons.prems b] have "\<not> do_decrypt l1" .
  from Cons.IH [OF this]
  have rec: "fst (decrypt_items c py session_key session_iv data_key data_iv l1 xs) = []" .
  show ?case
  proof (cases r1)
    case (Some e)
    with b t1 show ?thesis by simp
  next
    case None
    obtain t2 ys2 r2 where
      "decrypt_items c py session_key session_iv data_key data_iv l1 xs = (t2, ys2, r2)"
      by (metis prod_cases3)
    with rec b t1 None show ?thesis by simp
  qed
qed

lemma decrypted_response_unfold:
  assumes "decrypt_items c py session_key session_iv data_key data_iv
             \<lparr>do_decrypt = True, data_encryption_key_byte = None\<rparr>
             (outData (resp_result input_json)) = (t, ys, r)"
  shows "decrypted_response c py input_json session_key session_iv data_key data_iv =
     (t, input_json\<lparr>resp_result := (resp_result input_json)\<lparr>outData := ys\<rparr>\<rparr>,
      (case r of Some e \<Rightarrow> Inl e | None \<Rightarrow> Inr ys))"
  using assms by (simp add: decrypted_response_def Let_def split: option.splits)

subsection \<open>Runs of the examples\<close>

lemmas run_defs = decrypted_response_def loop_body_def decrypt_data_def encrypt_data_def
  plain_for_log_def run_simps Let_def

lemmas double_defs = noop_crypto_def ascii_python_def b64_index_def ascii_decode_def
  hex_of_bytes_def hex_digit_def is_space_def digits_int_def blit_def lit_def utf8_char_def

lemmas example_defs = dash_item_def null_item_def plaintext_item_def one_time_item_def
  resp_of_def

lemma example_null_run:
  "decrypted_response noop_crypto ascii_python (resp_of [null_item])
     (PyBytes [1]) (PyBytes [2]) PyNone PyNone =
   ([Invoke_decrypt_data (PyBytes [1]) (PyStr (lit ''aGVsbG8='')) (PyBytes [2]),
     Call base64_to_byte_array [PyStr (lit ''aGVsbG8='')],
     Call SKENC_DecryptMessage [PyBytes [1], PyBytes [2], PyBytes (blit ''hello'')],
     Call byte_array_to_string [PyBytes (blit ''hello'')]],
    resp_of [null_item\<lparr>item_data := PyStr (lit ''hello'')\<rparr>],
    Inr [null_item\<lparr>item_data := PyStr (lit ''hello'')\<rparr>])"
  by (simp add: run_defs double_defs example_defs)

lemma example_dash_null_run:
  "decrypted_response noop_crypto ascii_python (resp_of [dash_item, null_item])
     (PyBytes [1]) (PyBytes [2]) PyNone PyNone =
   ([],
    resp_of [dash_item\<lparr>item_data := PyBytes (blit ''aGk='')\<rparr>,
             null_item\<lparr>item_data := PyBytes (blit ''aGVsbG8='')\<rparr>],
    Inr [dash_item\<lparr>item_data := PyBytes (blit ''aGk='')\<rparr>,
         null_item\<lparr>item_data := PyBytes (blit ''aGVsbG8='')\<rparr>])"
  by (simp add: run_defs double_defs example_defs)

lemma example_dash_run:
  "decrypted_response noop_crypto ascii_python (resp_of [dash_item])
     (PyBytes [1]) (PyBytes [2]) PyNone PyNone =
   ([], resp_of [dash_item\<lparr>item_data := PyBytes (blit ''aGk='')\<rparr>],
    Inr [dash_item\<lparr>item_data := PyBytes (blit ''aGk='')\<rparr>])"
  by (simp add: run_defs double_defs example_defs)

lemma example_plaintext_run:
  "decrypted_response noop_crypto ascii_python (resp_of [plaintext_item])
     (PyBytes [1]) (PyBytes [2]) PyNone PyNone =
   ([], resp_of [plaintext_item\<lparr>item_data := PyBytes (blit ''plaintext-bytes'')\<rparr>],
    Inl binascii_Error)"
  by (simp add: run_defs double_defs example_defs)

lemma example_one_time_run:
  "decrypted_response noop_crypto ascii_python (resp_of [one_time_item])
     (PyBytes [1]) (PyBytes [2]) PyNone PyNone =
   ([Invoke_decrypt_data PyNone (PyStr []) PyNone], resp_of [one_time_item],
    Inr [one_time_item])"
  by (simp add: run_defs double_defs example_defs)

text \<open>The identity cipher of the stand-in is its own inverse, for every key and IV.\<close>

lemma noop_crypto_inverse: "skenc_inverse noop_crypto key_iv plaintext"
proof (cases key_iv)
  case Nil
  then show ?thesis by (simp add: skenc_inverse_def noop_crypto_def)
next
  case (Cons k rest)
  note c1 = Cons
  show ?thesis
  proof (cases rest)
    case Nil
    with c1 show ?thesis by (simp add: skenc_inverse_def noop_crypto_def)
  next
    case (Cons iv rest2)
    with c1 show ?thesis
      by (cases rest2) (simp_all add: skenc_inverse_def noop_crypto_def split: list.splits)
  qed
qed

subsection \<open>\<^verbatim>\<open>tuple.index\<close>\<close>

lemma index_of_None: "index_of xs x = None \<longleftrightarrow> x \<notin> set xs"
  by (induction xs) auto

lemma index_of_nth: "distinct xs \<Longrightarrow> k < length xs \<Longrightarrow> index_of xs (xs ! k) = Some k"
proof (induction xs arbitrary: k)
  case Nil
  then show ?case by simp
next
  case (Cons y ys)
  then show ?case by (cases k) auto
qed

lemma distinct_size_name: "distinct size_name"
  by (simp add: size_name_def lit_def)

section \<open>The claims\<close>

subsection \<open>C1: the decision for an item and the items before it\<close>

text \<open>
  C1 says that the key or skip decision for an item depends on the
  \<^verbatim>\<open>encryptedDataEncryptionKey\<close> of that item only, so that an item whose key id is
  \<^verbatim>\<open>"null"\<close> is decrypted with the session key even after an item marked \<^verbatim>\<open>"-"\<close>. The code
  sets \<^verbatim>\<open>do_decrypt\<close> once before the loop and never sets it back: the same item with key
  id \<^verbatim>\<open>"null"\<close> is decrypted to \<^verbatim>\<open>"hello"\<close> when it is alone, and is stored as the bytes of
  its undecrypted data, with no call of \<^verbatim>\<open>decrypt_data\<close> at all, when it follows an item
  marked \<^verbatim>\<open>"-"\<close>.
\<close>

theorem do_decrypt_carried_over:
  "snd (snd (decrypted_response noop_crypto ascii_python (resp_of [null_item])
       (PyBytes [1]) (PyBytes [2]) PyNone PyNone))
     = Inr [null_item\<lparr>item_data := PyStr (lit ''hello'')\<rparr>]
   \<and> decrypted_response noop_crypto ascii_python (resp_of [dash_item, null_item])
       (PyBytes [1]) (PyBytes [2]) PyNone PyNone
     = ([],
        resp_of [dash_item\<lparr>item_data := PyBytes (blit ''aGk='')\<rparr>,
                 null_item\<lparr>item_data := PyBytes (blit ''aGVsbG8='')\<rparr>],
        Inr [dash_item\<lparr>item_data := PyBytes (blit ''aGk='')\<rparr>,
             null_item\<lparr>item_data := PyBytes (blit ''aGVsbG8='')\<rparr>])"
  by (simp add: example_null_run example_dash_null_run)

text \<open>
  In general: an item marked \<^verbatim>\<open>"-"\<close> at the head of the list silences the whole loop.
  Whatever the key ids of the items after it, no item of the response is handed to
  \<^verbatim>\<open>decrypt_data\<close> and nothing of the crypto module is called.
\<close>

lemma dash_item_silences_rest:
  assumes "item_encryptedDataEncryptionKey x = PyStr (lit ''-'')"
  shows "fst (decrypt_items c py session_key session_iv data_key data_iv l (x # xs)) = []"
proof -
  obtain t1 l1 x1 r1 where b:
    "loop_body c py session_key session_iv data_key data_iv l x = (t1, l1, x1, r1)"
    by (metis prod_cases4)
  from loop_body_dash_trace [OF assms, of c py session_key session_iv data_key data_iv l] b
  have t1: "t1 = []" by simp
  show ?thesis
  proof (cases r1)
    case (Some e)
    with b t1 show ?thesis by simp
  next
    case None
    with b obtain d v where "py_encode (item_data x) = Inr d" "py_encode (item_iv x) = Inr v"
      by (auto simp: loop_body_def split: sum.splits)
    from loop_body_dash [OF assms this, of c py session_key session_iv data_key data_iv l] b
    have "\<not> do_decrypt l1" by simp
    from decrypt_items_plain [OF this, of c py session_key session_iv data_key data_iv xs]
    obtain ys2 r2 where
      "decrypt_items c py session_key session_iv data_key data_iv l1 xs = ([], ys2, r2)"
      by (metis fst_conv prod_cases3)
    with b t1 None show ?thesis by simp
  qed
qed

subsection \<open>C2: the response object of the caller\<close>

text \<open>
  C2 as stated (the input is not mutated: after the call each item of the input's
  \<^verbatim>\<open>outData\<close> still holds its original \<^verbatim>\<open>data\<close>) fails: after the call on a response with
  one item of data \<^verbatim>\<open>"aGVsbG8="\<close>, that item of the caller's response holds \<^verbatim>\<open>"hello"\<close>.
\<close>

theorem decrypted_response_mutates_input:
  "item_data (outData (resp_result (fst (snd
      (decrypted_response noop_crypto ascii_python (resp_of [null_item])
         (PyBytes [1]) (PyBytes [2]) PyNone PyNone)))) ! 0) = PyStr (lit ''hello'')
   \<and> item_data (outData (resp_result (resp_of [null_item])) ! 0) = PyStr (lit ''aGVsbG8='')
   \<and> PyStr (lit ''hello'') \<noteq> PyStr (lit ''aGVsbG8='')"
  by (simp add: example_null_run) (simp add: example_defs lit_def)

text \<open>
  C2, as amended. \<^verbatim>\<open>decrypted_response\<close> updates the response of the caller in place and
  returns its \<^verbatim>\<open>outData\<close> list. When the call returns, the list returned is the \<^verbatim>\<open>outData\<close>
  of the caller's response, and the item at each position is what the loop body made of
  the input item at that position: its \<^verbatim>\<open>data\<close> is the \<^verbatim>\<open>bytes\<close> of the UTF-8 encoding of the
  original \<^verbatim>\<open>data\<close>, or the value that \<^verbatim>\<open>decrypt_data\<close> returned for the original \<^verbatim>\<open>data\<close>
  under the session key and IV or under \<^verbatim>\<open>data_key\<close> and \<^verbatim>\<open>data_iv\<close>. Whatever the outcome,
  only \<^verbatim>\<open>data\<close> fields change: \<^verbatim>\<open>jsonrpc\<close>, \<^verbatim>\<open>id\<close>, the number of items, and the \<^verbatim>\<open>iv\<close> and
  \<^verbatim>\<open>encryptedDataEncryptionKey\<close> of every item are as before.
\<close>

theorem decrypted_response_in_place:
  assumes "decrypted_response c py input_json session_key session_iv data_key data_iv
             = (t, input_json', r)"
  shows "resp_jsonrpc input_json' = resp_jsonrpc input_json
    \<and> resp_id input_json' = resp_id input_json
    \<and> length (outData (resp_result input_json')) = length (outData (resp_result input_json))
    \<and> map item_iv (outData (resp_result input_json'))
        = map item_iv (outData (resp_result input_json))
    \<and> map item_encryptedDataEncryptionKey (outData (resp_result input_json'))
        = map item_encryptedDataEncryptionKey (outData (resp_result input_json))
    \<and> (\<forall>out. r = Inr out \<longrightarrow>
          outData (resp_result input_json') = out
        \<and> (\<forall>i < length (outData (resp_result input_json)).
             (\<exists>l t0 l1. loop_body c py session_key session_iv data_key data_iv l
                  (outData (resp_result input_json) ! i)
                = (t0, l1, outData (resp_result input_json') ! i, None))
           \<and> (\<exists>d. py_encode (item_data (outData (resp_result input_json) ! i)) = Inr d
                \<and> (item_data (outData (resp_result input_json') ! i) = PyBytes d
                   \<or> snd (decrypt_data c session_key
                          (item_data (outData (resp_result input_json) ! i)) session_iv)
                      = Inr (item_data (outData (resp_result input_json') ! i))
                   \<or> snd (decrypt_data c data_key
                          (item_data (outData (resp_result input_json) ! i)) data_iv)
                      = Inr (item_data (outData (resp_result input_json') ! i))))))"
proof -
  obtain t0 ys r0 where run: "decrypt_items c py session_key session_iv data_key data_iv
      \<lparr>do_decrypt = True, data_encryption_key_byte = None\<rparr>
      (outData (resp_result input_json)) = (t0, ys, r0)"
    by (metis prod_cases3)
  from decrypted_response_unfold [OF run] assms
  have eq: "input_json' = input_json\<lparr>resp_result := (resp_result input_json)\<lparr>outData := ys\<rparr>\<rparr>"
    and r: "r = (case r0 of Some e \<Rightarrow> Inl e | None \<Rightarrow> Inr ys)"
    by simp_all
  from eq have stored: "outData (resp_result input_json') = ys" by simp
  have frame: "resp_jsonrpc input_json' = resp_jsonrpc input_json
    \<and> resp_id input_json' = resp_id input_json
    \<and> length (outData (resp_result input_json')) = length (outData (resp_result input_json))
    \<and> map item_iv (outData (resp_result input_json'))
        = map item_iv (outData (resp_result input_json))
    \<and> map item_encryptedDataEncryptionKey (outData (resp_result input_json'))
        = map item_encryptedDataEncryptionKey (outData (resp_result input_json))"
    using decrypt_items_frame [OF run] eq by simp
  have upd: "(\<exists>l t0 l1. loop_body c py session_key session_iv data_key data_iv l
                  (outData (resp_result input_json) ! i) = (t0, l1, ys ! i, None))
           \<and> (\<exists>d. py_encode (item_data (outData (resp_result input_json) ! i)) = Inr d
                \<and> (item_data (ys ! i) = PyBytes d
                   \<or> snd (decrypt_data c session_key
                          (item_data (outData (resp_result input_json) ! i)) session_iv)
                      = Inr (item_data (ys ! i))
                   \<or> snd (decrypt_data c data_key
                          (item_data (outData (resp_result input_json) ! i)) data_iv)
                      = Inr (item_data (ys ! i))))"
    if ret: "r = Inr out" and i: "i < length (outData (resp_result input_json))" for out i
  proof -
    from ret r have r0: "r0 = None" by (cases r0) simp_all
    from decrypt_items_derived [OF run [unfolded r0] i] obtain l t1 l1 where
      b: "loop_body c py session_key session_iv data_key data_iv l
            (outData (resp_result input_json) ! i) = (t1, l1, ys ! i, None)"
      by blast
    from loop_body_returns_data [OF b] b show ?thesis by blast
  qed
  have same: "ys = out" if "r = Inr out" for out
    using that r by (cases r0) simp_all
  from frame upd same stored show ?thesis by simp
qed

theorem decrypted_response_in_place_witness:
  "snd (decrypted_response noop_crypto ascii_python (resp_of [null_item])
       (PyBytes [1]) (PyBytes [2]) PyNone PyNone)
     = (resp_of [null_item\<lparr>item_data := PyStr (lit ''hello'')\<rparr>],
        Inr [null_item\<lparr>item_data := PyStr (lit ''hello'')\<rparr>])
   \<and> outData (resp_result (resp_of [null_item\<lparr>item_data := PyStr (lit ''hello'')\<rparr>]))
       = [null_item\<lparr>item_data := PyStr (lit ''hello'')\<rparr>]
   \<and> item_data (outData (resp_result (resp_of [null_item])) ! 0) = PyStr (lit ''aGVsbG8='')
   \<and> snd (decrypt_data noop_crypto (PyBytes [1]) (PyStr (lit ''aGVsbG8='')) (PyBytes [2]))
       = Inr (item_data (outData (resp_result
           (resp_of [null_item\<lparr>item_data := PyStr (lit ''hello'')\<rparr>])) ! 0))
   \<and> map item_iv (outData (resp_result (resp_of [null_item\<lparr>item_data := PyStr (lit ''hello'')\<rparr>])))
       = map item_iv (outData (resp_result (resp_of [null_item])))"
  using decrypted_response_in_place [OF example_null_run]
  by (simp add: example_null_run)
    (simp add: example_defs decrypt_data_def run_simps double_defs)

subsection \<open>C3: an item with a one-time key\<close>

text \<open>
  C3 as stated (without \<^verbatim>\<open>data_key\<close> and \<^verbatim>\<open>data_iv\<close>, a response with an item whose key id is
  non-empty and neither \<^verbatim>\<open>"null"\<close> nor \<^verbatim>\<open>"-"\<close> raises \<^verbatim>\<open>MissingKeyContext\<close>) fails: the code
  has no such check. On one item with key id \<^verbatim>\<open>"abc"\<close> and empty data, the call without
  \<^verbatim>\<open>data_key\<close> and \<^verbatim>\<open>data_iv\<close> returns the item.
\<close>

theorem no_missing_key_context:
  "item_encryptedDataEncryptionKey one_time_item = PyStr (lit ''abc'')
   \<and> snd (snd (decrypted_response noop_crypto ascii_python (resp_of [one_time_item])
        (PyBytes [1]) (PyBytes [2]) PyNone PyNone)) = Inr [one_time_item]"
  by (simp add: example_one_time_run) (simp add: one_time_item_def)

text \<open>
  C3, as amended. For an item whose three fields are strings that UTF-8 encodes, whose key
  id is non-empty and neither \<^verbatim>\<open>"null"\<close> nor \<^verbatim>\<open>"-"\<close>, and that the loop reaches with
  \<^verbatim>\<open>do_decrypt\<close> still true, the key and IV are \<^verbatim>\<open>data_key\<close> and \<^verbatim>\<open>data_iv\<close> as the caller
  passed them, \<^verbatim>\<open>None\<close> when omitted: the body is the call
  \<^verbatim>\<open>decrypt_data(data_key, item['data'], data_iv)\<close>, whose value becomes the \<^verbatim>\<open>data\<close> of the
  item and whose exception leaves \<^verbatim>\<open>decrypted_response\<close>. No \<^verbatim>\<open>MissingKeyContext\<close> is
  raised.
\<close>

theorem one_time_key_item:
  assumes "item_encryptedDataEncryptionKey item = PyStr k"
    and "k \<noteq> []" and "k \<noteq> lit ''null''" and "k \<noteq> lit ''-''"
    and "utf8_encode k = Inr kb"
    and "py_encode (item_data item) = Inr d"
    and "py_encode (item_iv item) = Inr v"
    and "do_decrypt l"
  shows "loop_body c py session_key session_iv data_key data_iv l item =
      (fst (decrypt_data c data_key (item_data item) data_iv),
       l\<lparr>data_encryption_key_byte := Some data_key\<rparr>,
       (case snd (decrypt_data c data_key (item_data item) data_iv) of
          Inl e \<Rightarrow> item | Inr data_in_plain \<Rightarrow> item\<lparr>item_data := data_in_plain\<rparr>),
       (case snd (decrypt_data c data_key (item_data item) data_iv) of
          Inl e \<Rightarrow> Some e | Inr data_in_plain \<Rightarrow> None))
    \<and> hd (fst (decrypt_data c data_key (item_data item) data_iv))
        = Invoke_decrypt_data data_key (item_data item) data_iv"
proof -
  have "hd (fst (decrypt_data c data_key (item_data item) data_iv))
        = Invoke_decrypt_data data_key (item_data item) data_iv"
    by (simp add: decrypt_data_def run_simps split: prod.splits sum.splits)
  with loop_body_data_key [OF assms] show ?thesis
    by (simp split: prod.splits sum.splits)
qed

theorem one_time_key_item_witness:
  "item_encryptedDataEncryptionKey one_time_item = PyStr (lit ''abc'')
   \<and> utf8_encode (lit ''abc'') = Inr (blit ''abc'')
   \<and> py_encode (item_data one_time_item) = Inr []
   \<and> py_encode (item_iv one_time_item) = Inr []
   \<and> loop_body noop_crypto ascii_python (PyBytes [1]) (PyBytes [2]) PyNone PyNone
       \<lparr>do_decrypt = True, data_encryption_key_byte = None\<rparr> one_time_item =
     ([Invoke_decrypt_data PyNone (PyStr []) PyNone],
      \<lparr>do_decrypt = True, data_encryption_key_byte = Some PyNone\<rparr>, one_time_item, None)"
  using one_time_key_item [of one_time_item "lit ''abc''" "blit ''abc''" "[]" "[]"
      "\<lparr>do_decrypt = True, data_encryption_key_byte = None\<rparr>"
      noop_crypto ascii_python "PyBytes [1]" "PyBytes [2]" PyNone PyNone]
  by (simp add: one_time_item_def decrypt_data_def run_simps lit_def blit_def utf8_char_def)

subsection \<open>C4: an item marked \<^verbatim>\<open>"-"\<close>\<close>

text \<open>
  C4 as stated (the output for an item marked \<^verbatim>\<open>"-"\<close> is exactly the input \<^verbatim>\<open>data\<close> value,
  with no UTF-8 or base64 conversion) fails: for the data \<^verbatim>\<open>"aGk="\<close>, a \<^verbatim>\<open>str\<close>, the output
  is the \<^verbatim>\<open>bytes\<close> of its UTF-8 encoding, another value; and for the data
  \<^verbatim>\<open>"plaintext-bytes"\<close> the call raises from the base64 decoding of the logged expression.
\<close>

theorem plain_item_not_verbatim:
  "item_data (outData (resp_result (resp_of [dash_item])) ! 0) = PyStr (lit ''aGk='')
   \<and> snd (snd (decrypted_response noop_crypto ascii_python (resp_of [dash_item])
        (PyBytes [1]) (PyBytes [2]) PyNone PyNone))
      = Inr [dash_item\<lparr>item_data := PyBytes (blit ''aGk='')\<rparr>]
   \<and> PyBytes (blit ''aGk='') \<noteq> PyStr (lit ''aGk='')
   \<and> snd (snd (decrypted_response noop_crypto ascii_python (resp_of [plaintext_item])
        (PyBytes [1]) (PyBytes [2]) PyNone PyNone)) = Inl binascii_Error"
  by (simp add: example_dash_run example_plaintext_run) (simp add: example_defs)

text \<open>
  C4, as amended. For every item marked \<^verbatim>\<open>"-"\<close>, when \<^verbatim>\<open>decrypted_response\<close> returns, the
  output at the position of the item is the item with its \<^verbatim>\<open>data\<close> replaced by the \<^verbatim>\<open>bytes\<close> of
  the UTF-8 encoding of the input \<^verbatim>\<open>data\<close>; and whatever the loop variables, the body makes
  no call for that item: \<^verbatim>\<open>decrypt_data\<close> is not invoked and nothing of the crypto module
  is called.
\<close>

theorem plain_item_stored_encoded:
  assumes "decrypted_response c py input_json session_key session_iv data_key data_iv
             = (t, input_json', Inr out)"
    and "i < length (outData (resp_result input_json))"
    and "item_encryptedDataEncryptionKey (outData (resp_result input_json) ! i) = PyStr (lit ''-'')"
  shows "(\<exists>d. py_encode (item_data (outData (resp_result input_json) ! i)) = Inr d
            \<and> out ! i = (outData (resp_result input_json) ! i)\<lparr>item_data := PyBytes d\<rparr>)
    \<and> (\<forall>l. fst (loop_body c py session_key session_iv data_key data_iv l
                  (outData (resp_result input_json) ! i)) = [])"
proof -
  obtain t0 ys r0 where run: "decrypt_items c py session_key session_iv data_key data_iv
      \<lparr>do_decrypt = True, data_encryption_key_byte = None\<rparr>
      (outData (resp_result input_json)) = (t0, ys, r0)"
    by (metis prod_cases3)
  from decrypted_response_unfold [OF run] assms(1) have r0: "r0 = None" and ys: "ys = out"
    by (auto split: option.splits)
  from decrypt_items_derived [OF run [unfolded r0] assms(2)] ys obtain l0 t1 l1 where
    "loop_body c py session_key session_iv data_key data_iv l0
       (outData (resp_result input_json) ! i) = (t1, l1, out ! i, None)"
    by blast
  from loop_body_dash_returns [OF assms(3) this] loop_body_dash_trace [OF assms(3)]
  show ?thesis by blast
qed

theorem plain_item_stored_encoded_witness:
  "snd (snd (decrypted_response noop_crypto ascii_python (resp_of [dash_item])
       (PyBytes [1]) (PyBytes [2]) PyNone PyNone))
     = Inr [dash_item\<lparr>item_data := PyBytes (blit ''aGk='')\<rparr>]
   \<and> item_encryptedDataEncryptionKey (outData (resp_result (resp_of [dash_item])) ! 0)
       = PyStr (lit ''-'')
   \<and> py_encode (item_data (outData (resp_result (resp_of [dash_item])) ! 0))
       = Inr (blit ''aGk='')
   \<and> fst (loop_body noop_crypto ascii_python (PyBytes [1]) (PyBytes [2]) PyNone PyNone
        \<lparr>do_decrypt = True, data_encryption_key_byte = None\<rparr> dash_item) = []"
  using plain_item_stored_encoded [OF example_dash_run, of 0]
  by (simp add: example_dash_run) (simp add: example_defs lit_def blit_def utf8_char_def)

subsection \<open>C5: length and order\<close>

text \<open>
  C5. For every response, the sequence that \<^verbatim>\<open>decrypted_response\<close> returns has the length
  of the input \<^verbatim>\<open>outData\<close>, and the entry at each position comes from the input item at that
  position: it has its \<^verbatim>\<open>iv\<close> and its \<^verbatim>\<open>encryptedDataEncryptionKey\<close>, and it is what the loop
  body makes of that item. When \<^verbatim>\<open>outData\<close> is empty the call returns the empty sequence
  and makes no call.
\<close>

theorem decrypted_response_length_order:
  "(\<forall>out. snd (snd (decrypted_response c py input_json session_key session_iv data_key data_iv))
        = Inr out \<longrightarrow>
      length out = length (outData (resp_result input_json))
      \<and> (\<forall>i < length (outData (resp_result input_json)).
           item_iv (out ! i) = item_iv (outData (resp_result input_json) ! i)
         \<and> item_encryptedDataEncryptionKey (out ! i)
             = item_encryptedDataEncryptionKey (outData (resp_result input_json) ! i)
         \<and> (\<exists>l. out ! i = fst (snd (snd (loop_body c py session_key session_iv data_key data_iv l
                (outData (resp_result input_json) ! i)))))))
   \<and> (outData (resp_result input_json) = [] \<longrightarrow>
        fst (decrypted_response c py input_json session_key session_iv data_key data_iv) = []
      \<and> snd (snd (decrypted_response c py input_json session_key session_iv data_key data_iv))
          = Inr [])"
proof -
  obtain t0 ys r0 where run: "decrypt_items c py session_key session_iv data_key data_iv
      \<lparr>do_decrypt = True, data_encryption_key_byte = None\<rparr>
      (outData (resp_result input_json)) = (t0, ys, r0)"
    by (metis prod_cases3)
  note unf = decrypted_response_unfold [OF run]
  note frame = decrypt_items_frame [OF run]
  have "length out = length (outData (resp_result input_json))
      \<and> (\<forall>i < length (outData (resp_result input_json)).
           item_iv (out ! i) = item_iv (outData (resp_result input_json) ! i)
         \<and> item_encryptedDataEncryptionKey (out ! i)
             = item_encryptedDataEncryptionKey (outData (resp_result input_json) ! i)
         \<and> (\<exists>l. out ! i = fst (snd (snd (loop_body c py session_key session_iv data_key data_iv l
                (outData (resp_result input_json) ! i))))))"
    if out: "snd (snd (decrypted_response c py input_json session_key session_iv data_key data_iv))
        = Inr out" for out
  proof -
    from unf out have r0: "r0 = None" and ys: "ys = out" by (auto split: option.splits)
    have "\<exists>l. out ! i = fst (snd (snd (loop_body c py session_key session_iv data_key data_iv l
                (outData (resp_result input_json) ! i))))"
      if "i < length (outData (resp_result input_json))" for i
      using decrypt_items_derived [OF run [unfolded r0] that] ys by (metis fst_conv snd_conv)
    moreover have "item_iv (out ! i) = item_iv (outData (resp_result input_json) ! i)
        \<and> item_encryptedDataEncryptionKey (out ! i)
             = item_encryptedDataEncryptionKey (outData (resp_result input_json) ! i)"
      if "i < length (outData (resp_result input_json))" for i
      using frame ys that by (metis nth_map)
    ultimately show ?thesis using frame ys by simp
  qed
  moreover have "fst (decrypted_response c py input_json session_key session_iv data_key data_iv) = []
      \<and> snd (snd (decrypted_response c py input_json session_key session_iv data_key data_iv))
          = Inr []"
    if "outData (resp_result input_json) = []"
    using that by (simp add: decrypted_response_def)
  ultimately show ?thesis by blast
qed

theorem decrypted_response_length_order_witness:
  "snd (snd (decrypted_response noop_crypto ascii_python (resp_of [dash_item, null_item])
       (PyBytes [1]) (PyBytes [2]) PyNone PyNone))
     = Inr [dash_item\<lparr>item_data := PyBytes (blit ''aGk='')\<rparr>,
            null_item\<lparr>item_data := PyBytes (blit ''aGVsbG8='')\<rparr>]
   \<and> length [dash_item\<lparr>item_data := PyBytes (blit ''aGk='')\<rparr>,
             null_item\<lparr>item_data := PyBytes (blit ''aGVsbG8='')\<rparr>]
       = length (outData (resp_result (resp_of [dash_item, null_item])))
   \<and> outData (resp_result (resp_of [])) = []
   \<and> decrypted_response noop_crypto ascii_python (resp_of [])
        (PyBytes [1]) (PyBytes [2]) PyNone PyNone = ([], resp_of [], Inr [])"
  using decrypted_response_length_order [of noop_crypto ascii_python
      "resp_of [dash_item, null_item]" "PyBytes [1]" "PyBytes [2]" PyNone PyNone]
    decrypted_response_length_order [of noop_crypto ascii_python "resp_of []"
      "PyBytes [1]" "PyBytes [2]" PyNone PyNone]
  by (simp add: example_dash_null_run) (simp add: resp_of_def decrypted_response_def)

subsection \<open>C6: encrypting, then decrypting\<close>

text \<open>
  C6 as stated (\<^verbatim>\<open>decrypt_data(key, encrypt_data(plaintext, key, iv), iv) == plaintext\<close> when
  the symmetric primitives are mutually inverse) fails: \<^verbatim>\<open>decrypt_data\<close> base64-decodes its
  argument, which \<^verbatim>\<open>encrypt_data\<close> did not base64-encode. With the identity cipher, the
  plaintext \<^verbatim>\<open>"aGVsbG8="\<close> comes back as \<^verbatim>\<open>"hello"\<close>.
\<close>

theorem round_trip_needs_base64:
  "snd (encrypt_data noop_crypto (PyStr (lit ''aGVsbG8='')) (PyBytes [1]) (PyBytes [2]))
     = Inr (PyStr (lit ''aGVsbG8=''))
   \<and> skenc_inverse noop_crypto [PyBytes [1], PyBytes [2]] (PyStr (lit ''aGVsbG8=''))
   \<and> snd (decrypt_data noop_crypto (PyBytes [1]) (PyStr (lit ''aGVsbG8='')) (PyBytes [2]))
     = Inr (PyStr (lit ''hello''))
   \<and> PyStr (lit ''hello'') \<noteq> PyStr (lit ''aGVsbG8='')"
  by (simp add: encrypt_data_def decrypt_data_def skenc_inverse_def run_simps double_defs)

text \<open>
  C6, as amended. When the symmetric primitives are mutually inverse for the key, the IV
  and the plaintext, \<^verbatim>\<open>encrypt_data(plaintext, key, iv)\<close> returned a ciphertext, and \<^verbatim>\<open>data\<close>
  is a non-empty value that \<^verbatim>\<open>base64_to_byte_array\<close> decodes to that ciphertext, then
  \<^verbatim>\<open>decrypt_data(key, data, iv)\<close> is \<^verbatim>\<open>byte_array_to_string(plaintext)\<close>: the round trip
  goes through the base64 encoding of the ciphertext and gives the plaintext as a string.
\<close>

theorem decrypt_data_restores_plaintext:
  assumes "skenc_inverse c (if iv \<noteq> PyNone then [encryption_key, iv] else [encryption_key]) plaintext"
    and "snd (encrypt_data c plaintext encryption_key iv) = Inr ciphertext"
    and "truthy data"
    and "c base64_to_byte_array [data] = Inr ciphertext"
  shows "snd (decrypt_data c encryption_key data iv) = c byte_array_to_string [plaintext]"
  using assms
  by (auto simp: decrypt_data_def encrypt_data_def skenc_inverse_def run_simps
      split: if_splits sum.splits prod.splits)

theorem decrypt_data_restores_plaintext_witness:
  "skenc_inverse noop_crypto [PyBytes [1], PyBytes [2]] (PyBytes (blit ''hello''))
   \<and> snd (encrypt_data noop_crypto (PyBytes (blit ''hello'')) (PyBytes [1]) (PyBytes [2]))
       = Inr (PyBytes (blit ''hello''))
   \<and> truthy (PyStr (lit ''aGVsbG8=''))
   \<and> noop_crypto base64_to_byte_array [PyStr (lit ''aGVsbG8='')] = Inr (PyBytes (blit ''hello''))
   \<and> snd (decrypt_data noop_crypto (PyBytes [1]) (PyStr (lit ''aGVsbG8='')) (PyBytes [2]))
       = Inr (PyStr (lit ''hello''))"
  using decrypt_data_restores_plaintext [of noop_crypto "PyBytes [2]" "PyBytes [1]"
      "PyBytes (blit ''hello'')" "PyBytes (blit ''hello'')" "PyStr (lit ''aGVsbG8='')"]
  by (simp add: encrypt_data_def skenc_inverse_def run_simps double_defs)

subsection \<open>C7: \<^verbatim>\<open>verify_data_hash\<close>\<close>

text \<open>
  C7. For every message \<open>m\<close> and every string \<open>h\<close>, \<^verbatim>\<open>verify_data_hash(m, h)\<close> returns
  \<^verbatim>\<open>True\<close> exactly when \<open>h\<close> in upper case equals, in upper case, the hex string of the hash
  of the UTF-8 encoding of \<open>m\<close>. So the digest itself is accepted in any casing and any
  other string is rejected; and whenever the hash and its hex string are computed, the
  function returns a boolean: a mismatch is the value \<^verbatim>\<open>False\<close>, not an exception.
\<close>

theorem verify_data_hash_compares_upper_hex:
  "(snd (verify_data_hash c py (PyStr m) (PyStr h)) = Inr True \<longleftrightarrow>
      (\<exists>b d x. utf8_encode m = Inr b \<and> c compute_message_hash [PyBytes b] = Inr d
         \<and> c byte_array_to_hex_str [d] = Inr (PyStr x) \<and> str_upper py h = str_upper py x))
   \<and> (\<forall>b d x. utf8_encode m = Inr b \<and> c compute_message_hash [PyBytes b] = Inr d
         \<and> c byte_array_to_hex_str [d] = Inr (PyStr x) \<longrightarrow>
       snd (verify_data_hash c py (PyStr m) (PyStr h))
         = Inr (str_upper py h = str_upper py x))"
proof -
  have "snd (verify_data_hash c py (PyStr m) (PyStr h)) = Inr (str_upper py h = str_upper py x)"
    if "utf8_encode m = Inr b" "c compute_message_hash [PyBytes b] = Inr d"
      "c byte_array_to_hex_str [d] = Inr (PyStr x)" for b d x
    using that by (auto simp: verify_data_hash_def compute_data_hash_def run_simps)
  moreover have "\<exists>b d x. utf8_encode m = Inr b \<and> c compute_message_hash [PyBytes b] = Inr d
         \<and> c byte_array_to_hex_str [d] = Inr (PyStr x) \<and> str_upper py h = str_upper py x"
    if "snd (verify_data_hash c py (PyStr m) (PyStr h)) = Inr True"
  proof -
    from that obtain b where b: "utf8_encode m = Inr b"
      by (cases "utf8_encode m") (auto simp: verify_data_hash_def compute_data_hash_def run_simps)
    with that obtain d where d: "c compute_message_hash [PyBytes b] = Inr d"
      by (cases "c compute_message_hash [PyBytes b]")
        (auto simp: verify_data_hash_def compute_data_hash_def run_simps)
    with b that obtain v where v: "c byte_array_to_hex_str [d] = Inr v"
      by (cases "c byte_array_to_hex_str [d]")
        (auto simp: verify_data_hash_def compute_data_hash_def run_simps)
    with b d that obtain x where "v = PyStr x" "str_upper py h = str_upper py x"
      by (cases v) (auto simp: verify_data_hash_def compute_data_hash_def run_simps
          split: if_splits)
    with b d v show ?thesis by blast
  qed
  ultimately show ?thesis by auto
qed

theorem verify_data_hash_compares_upper_hex_witness:
  "utf8_encode (lit ''hi'') = Inr (blit ''hi'')
   \<and> noop_crypto compute_message_hash [PyBytes (blit ''hi'')] = Inr (PyBytes [0xD1])
   \<and> noop_crypto byte_array_to_hex_str [PyBytes [0xD1]] = Inr (PyStr (lit ''d1''))
   \<and> snd (verify_data_hash noop_crypto ascii_python (PyStr (lit ''hi'')) (PyStr (lit ''D1'')))
       = Inr True
   \<and> snd (verify_data_hash noop_crypto ascii_python (PyStr (lit ''hi'')) (PyStr (lit ''d2'')))
       = Inr False"
  using verify_data_hash_compares_upper_hex [of noop_crypto ascii_python "lit ''hi''" "lit ''D1''"]
    verify_data_hash_compares_upper_hex [of noop_crypto ascii_python "lit ''hi''" "lit ''d2''"]
  by (simp add: double_defs)

subsection \<open>C8: empty data\<close>

text \<open>
  C8. For every key and every IV, present or \<^verbatim>\<open>None\<close>, \<^verbatim>\<open>decrypt_data(key, "", iv)\<close>
  returns the empty string it was given and calls nothing of the crypto module: neither
  the base64 decoding nor the symmetric decryption. Empty data is not an error.
\<close>

theorem decrypt_data_empty:
  "decrypt_data c encryption_key (PyStr []) iv =
     ([Invoke_decrypt_data encryption_key (PyStr []) iv], Inr (PyStr []))"
  by (simp add: decrypt_data_def run_simps)

subsection \<open>C9: \<^verbatim>\<open>human_read_to_byte\<close>\<close>

text \<open>
  C9. \<^verbatim>\<open>human_read_to_byte(size)\<close> raises \<^verbatim>\<open>ValueError\<close> for every malformed string: one
  that does not split into exactly two tokens, whose first token is not read by \<^verbatim>\<open>int\<close> as
  a positive integer, or whose second token in upper case is not one of \<^verbatim>\<open>B\<close>, \<^verbatim>\<open>KB\<close>, \<^verbatim>\<open>MB\<close>,
  \<^verbatim>\<open>GB\<close>, \<^verbatim>\<open>TB\<close>, \<^verbatim>\<open>PB\<close>, \<^verbatim>\<open>EB\<close>, \<^verbatim>\<open>ZB\<close>, \<^verbatim>\<open>YB\<close>. For every string of two tokens, a positive
  integer \<open>n\<close> and the unit at index \<open>k\<close> of that list in any casing, it returns
  \<open>n * 1024 ^ k\<close>.
\<close>

theorem human_read_to_byte_spec:
  "(length (str_split py size_str) \<noteq> 2
      \<or> (\<forall>n. int_of_str py (str_split py size_str ! 0) = Some n \<longrightarrow> n \<le> 0)
      \<or> str_upper py (str_split py size_str ! 1) \<notin> set size_name
     \<longrightarrow> human_read_to_byte py size_str = Inl ValueError)
   \<and> (\<forall>a b n k. str_split py size_str = [a, b] \<and> int_of_str py a = Some n \<and> 0 < n
         \<and> k < length size_name \<and> str_upper py b = size_name ! k
       \<longrightarrow> human_read_to_byte py size_str = Inr (n * 1024 ^ k))"
proof -
  have "human_read_to_byte py size_str = Inl ValueError"
    if bad: "length (str_split py size_str) \<noteq> 2
      \<or> (\<forall>n. int_of_str py (str_split py size_str ! 0) = Some n \<longrightarrow> n \<le> 0)
      \<or> str_upper py (str_split py size_str ! 1) \<notin> set size_name"
  proof -
    have "index_of size_name u = None" if "u \<notin> set size_name" for u
      using that by (simp add: index_of_None)
    with bad show ?thesis
      by (auto simp: human_read_to_byte_def py_int_def Let_def
          split: option.splits sum.splits)
  qed
  moreover have "human_read_to_byte py size_str = Inr (n * 1024 ^ k)"
    if "str_split py size_str = [a, b]" "int_of_str py a = Some n" "0 < n"
      "k < length size_name" "str_upper py b = size_name ! k" for a b n k
    using that index_of_nth [OF distinct_size_name that(4)]
    by (simp add: human_read_to_byte_def py_int_def Let_def)
  ultimately show ?thesis by blast
qed

theorem human_read_to_byte_spec_witness:
  "str_split ascii_python (lit ''1 gb'') = [lit ''1'', lit ''gb'']
   \<and> int_of_str ascii_python (lit ''1'') = Some 1
   \<and> str_upper ascii_python (lit ''gb'') = size_name ! 3
   \<and> human_read_to_byte ascii_python (lit ''1 gb'') = Inr (1 * 1024 ^ 3)
   \<and> length (str_split ascii_python (lit ''1gb'')) \<noteq> 2
   \<and> human_read_to_byte ascii_python (lit ''1gb'') = Inl ValueError"
  using human_read_to_byte_spec [of ascii_python "lit ''1 gb''", THEN conjunct2, rule_format,
      of "lit ''1''" "lit ''gb''" 1 3]
    human_read_to_byte_spec [of ascii_python "lit ''1gb''", THEN conjunct1]
  by (simp add: double_defs size_name_def)

subsection \<open>C10: the logged expression of the plain branch\<close>

text \<open>
  C10. For an item marked \<^verbatim>\<open>"-"\<close>, the plain branch stores the encoded data and then
  evaluates \<^verbatim>\<open>base64.b64decode(data).decode('UTF-8')\<close> for the logger. So whenever a
  response has an item marked \<^verbatim>\<open>"-"\<close> whose encoded data is not base64 of UTF-8 text (the
  base64 decoding or the UTF-8 decoding raises), \<^verbatim>\<open>decrypted_response\<close> raises instead of
  returning; and if the \<^verbatim>\<open>iv\<close> of the item encodes too, the body has stored the bytes in
  the item when the exception leaves it.
\<close>

theorem plain_item_needs_base64_text:
  assumes "i < length (outData (resp_result input_json))"
    and "item_encryptedDataEncryptionKey (outData (resp_result input_json) ! i) = PyStr (lit ''-'')"
    and "py_encode (item_data (outData (resp_result input_json) ! i)) = Inr d"
    and "plain_for_log py d = Inl e"
  shows "(\<exists>e'. snd (snd (decrypted_response c py input_json session_key session_iv data_key data_iv))
           = Inl e')
    \<and> (\<forall>l v. py_encode (item_iv (outData (resp_result input_json) ! i)) = Inr v \<longrightarrow>
          loop_body c py session_key session_iv data_key data_iv l
            (outData (resp_result input_json) ! i)
          = ([], l\<lparr>do_decrypt := False\<rparr>,
             (outData (resp_result input_json) ! i)\<lparr>item_data := PyBytes d\<rparr>, Some e))"
proof -
  obtain t0 ys r0 where run: "decrypt_items c py session_key session_iv data_key data_iv
      \<lparr>do_decrypt = True, data_encryption_key_byte = None\<rparr>
      (outData (resp_result input_json)) = (t0, ys, r0)"
    by (metis prod_cases3)
  have "r0 \<noteq> None"
  proof
    assume "r0 = None"
    with run decrypt_items_derived [OF _ assms(1)] obtain l0 t1 l1 where
      "loop_body c py session_key session_iv data_key data_iv l0
         (outData (resp_result input_json) ! i) = (t1, l1, ys ! i, None)"
      by blast
    with loop_body_dash_raises [OF assms(2-4), of c session_key session_iv data_key data_iv l0]
    show False by simp
  qed
  with decrypted_response_unfold [OF run]
  have "\<exists>e'. snd (snd (decrypted_response c py input_json session_key session_iv data_key data_iv))
           = Inl e'"
    by auto
  moreover have "loop_body c py session_key session_iv data_key data_iv l
            (outData (resp_result input_json) ! i)
          = ([], l\<lparr>do_decrypt := False\<rparr>,
             (outData (resp_result input_json) ! i)\<lparr>item_data := PyBytes d\<rparr>, Some e)"
    if "py_encode (item_iv (outData (resp_result input_json) ! i)) = Inr v" for l v
    using loop_body_dash [OF assms(2,3) that] assms(4) by simp
  ultimately show ?thesis by blast
qed

theorem plain_item_needs_base64_text_witness:
  "item_encryptedDataEncryptionKey (outData (resp_result (resp_of [plaintext_item])) ! 0)
     = PyStr (lit ''-'')
   \<and> py_encode (item_data (outData (resp_result (resp_of [plaintext_item])) ! 0))
       = Inr (blit ''plaintext-bytes'')
   \<and> plain_for_log ascii_python (blit ''plaintext-bytes'') = Inl binascii_Error
   \<and> snd (snd (decrypted_response noop_crypto ascii_python (resp_of [plaintext_item])
       (PyBytes [1]) (PyBytes [2]) PyNone PyNone)) = Inl binascii_Error"
  using plain_item_needs_base64_text [of 0 "resp_of [plaintext_item]"
      "blit ''plaintext-bytes''" ascii_python binascii_Error noop_crypto
      "PyBytes [1]" "PyBytes [2]" PyNone PyNone]
  by (simp add: example_plaintext_run)
    (simp add: example_defs plain_for_log_def double_defs)

end
